theory Spec2Isabelle
  imports Complex_Main "HOL-Library.AList" "HOL-Library.Signed_Division"
begin

section \<open>Strings\<close>

text \<open>
  Attendance codes and month names are JavaScript strings. They are modelled as
  \<^typ>\<open>string\<close> over ASCII: \<open>String.prototype.toUpperCase\<close> maps the letters
  \<open>a\<close>..\<open>z\<close> to \<open>A\<close>..\<open>Z\<close> and leaves every other character as it is.
\<close>

definition upper_char :: "char \<Rightarrow> char" where
  "upper_char c =
     (case map_of (zip ''abcdefghijklmnopqrstuvwxyz'' ''ABCDEFGHIJKLMNOPQRSTUVWXYZ'') c of
        Some u \<Rightarrow> u
      | None \<Rightarrow> c)"

definition toUpperCase :: "string \<Rightarrow> string" where
  "toUpperCase s = map upper_char s"

section \<open>Code registry (src/utils/constants.js)\<close>

text \<open>
  \<open>ATTENDANCE_CODES\<close> is an object keyed by the nine codes; only its keys matter to
  the functions below (labels and colours are presentation). The lookup
  \<open>ATTENDANCE_CODES[upperCode]\<close> is truthy exactly for these keys: the names an
  object inherits from \<open>Object.prototype\<close> all contain lower-case letters, and
  \<open>upperCode\<close> is the result of \<open>toUpperCase\<close>.
\<close>

definition ATTENDANCE_CODES :: "string list" where
  "ATTENDANCE_CODES = [''P'', ''A'', ''O'', ''S'', ''H'', ''N'', ''L'', ''HD'', ''WFH'']"

text \<open>
  \<^verbatim>\<open>
  export const normalizeAttendanceCode = (code) => {
    if (!code) return '';
    const upperCode = code.toString().toUpperCase();
    return upperCode === 'A' ? 'A' : ATTENDANCE_CODES[upperCode] ? upperCode : '';
  };
  \<close>
\<close>

definition normalizeAttendanceCode :: "string \<Rightarrow> string" where
  "normalizeAttendanceCode code =
     (if code = [] then []
      else let upperCode = toUpperCase code
           in if upperCode = ''A'' then ''A''
              else if upperCode \<in> set ATTENDANCE_CODES then upperCode else [])"

section \<open>Calendar helper (src/utils/constants.js)\<close>

text \<open>The \<open>MONTHS\<close> table: the \<open>value\<close> and \<open>days\<close> fields of its twelve entries, in order.\<close>

definition MONTHS :: "(string \<times> int) list" where
  "MONTHS =
     [(''Jan'', 31), (''Feb'', 28), (''Mar'', 31), (''Apr'', 30), (''May'', 31), (''Jun'', 30),
      (''Jul'', 31), (''Aug'', 31), (''Sep'', 30), (''Oct'', 31), (''Nov'', 30), (''Dec'', 31)]"

text \<open>
  \<open>Array.prototype.findIndex\<close> and \<open>indexOf\<close>: the index of the first match, \<open>-1\<close>
  when there is none.
\<close>

fun findIndex :: "('a \<Rightarrow> bool) \<Rightarrow> 'a list \<Rightarrow> int" where
  "findIndex p [] = -1"
| "findIndex p (x # xs) =
     (if p x then 0 else (let i = findIndex p xs in if i < 0 then -1 else i + 1))"

definition indexOf :: "'a list \<Rightarrow> 'a \<Rightarrow> int" where
  "indexOf xs v = findIndex (\<lambda>x. x = v) xs"

text \<open>
  \<^verbatim>\<open>
  export const getDaysInMonth = (month, year) => {
    const monthIndex = MONTHS.findIndex(m => m.value === month);
    if (monthIndex === 1) { // February
      return (year % 4 === 0 && year % 100 !== 0) || (year % 400 === 0) ? 29 : 28;
    }
    return MONTHS[monthIndex]?.days || 31;
  };
  \<close>
  The year is an integer; JavaScript's \<open>%\<close> takes the sign of the dividend, which is
  \<^const>\<open>signed_modulo\<close> on \<^typ>\<open>int\<close>. \<open>MONTHS[monthIndex]\<close> is \<open>undefined\<close> for the
  index \<open>-1\<close>, and then \<open>?.days || 31\<close> is 31.
\<close>

definition getDaysInMonth :: "string \<Rightarrow> int \<Rightarrow> int" where
  "getDaysInMonth mon yr =
     (let monthIndex = findIndex (\<lambda>m. fst m = mon) MONTHS
      in if monthIndex = 1
         then (if (yr smod 4 = 0 \<and> yr smod 100 \<noteq> 0) \<or> yr smod 400 = 0 then 29 else 28)
         else if 0 \<le> monthIndex \<and> monthIndex < int (length MONTHS)
              then (let days = snd (MONTHS ! nat monthIndex) in if days = 0 then 31 else days)
              else 31)"

section \<open>The built-in Date\<close>

text \<open>
  \<open>new Date(year, monthIndex, day).getDay()\<close> is the one use the program makes of the
  built-in \<open>Date\<close>. It is modelled by the date arithmetic of the ECMAScript
  specification (\<open>DayFromYear\<close>, \<open>MakeDay\<close>, \<open>WeekDay\<close>, \<open>TimeClip\<close>) on day numbers
  counted from 1 January 1970, in a local time zone with a fixed offset: a year from
  0 to 99 means 1900 + year, a month index outside 0..11 carries into the year, and a
  date beyond 100,000,000 days from the epoch is invalid, for which \<open>getDay()\<close> is
  \<open>NaN\<close> (here \<open>None\<close>).
\<close>

definition DayFromYear :: "int \<Rightarrow> int" where
  "DayFromYear y =
     365 * (y - 1970) + (y - 1969) div 4 - (y - 1901) div 100 + (y - 1601) div 400"

definition InLeapYear :: "int \<Rightarrow> bool" where
  "InLeapYear y = ((y mod 4 = 0 \<and> y mod 100 \<noteq> 0) \<or> y mod 400 = 0)"

definition MakeDay :: "int \<Rightarrow> int \<Rightarrow> int \<Rightarrow> int" where
  "MakeDay yr m dt =
     (let ym = yr + m div 12;
          mn = m mod 12;
          offset = [0, 31, 59, 90, 120, 151, 181, 212, 243, 273, 304, 334] ! nat mn
                   + (if 2 \<le> mn \<and> InLeapYear ym then 1 else 0)
      in DayFromYear ym + offset + dt - 1)"

definition WeekDay :: "int \<Rightarrow> int" where
  "WeekDay d = (d + 4) mod 7"

definition Date_getDay :: "int \<Rightarrow> int \<Rightarrow> int \<Rightarrow> int option" where
  "Date_getDay yr monthIndex day =
     (let y = (if 0 \<le> yr \<and> yr \<le> 99 then 1900 + yr else yr);
          d = MakeDay y monthIndex day
      in if \<bar>d\<bar> > 100000000 then None else Some (WeekDay d))"

section \<open>Summary engine (calculateSummaries and its helpers)\<close>

text \<open>
  \<^verbatim>\<open>
  export const getSundaysInMonth = (month, year) => {
    const sundays = [];
    const monthIndex = ['Jan', 'Feb', 'Mar', 'Apr', 'May', 'Jun',
                       'Jul', 'Aug', 'Sep', 'Oct', 'Nov', 'Dec'].indexOf(month);
    const daysInMonth = getDaysInMonth(month, year);
    for (let day = 1; day <= daysInMonth; day++) {
      const date = new Date(year, monthIndex, day);
      if (date.getDay() === 0) { sundays.push(day); }
    }
    return sundays;
  };
  \<close>
  The loop keeps, in order, the days from 1 to \<open>daysInMonth\<close> that pass the test.
\<close>

definition getSundaysInMonth :: "string \<Rightarrow> int \<Rightarrow> int list" where
  "getSundaysInMonth mon yr =
     (let monthIndex = indexOf [''Jan'', ''Feb'', ''Mar'', ''Apr'', ''May'', ''Jun'',
                                ''Jul'', ''Aug'', ''Sep'', ''Oct'', ''Nov'', ''Dec''] mon;
          daysInMonth = getDaysInMonth mon yr
      in filter (\<lambda>day. Date_getDay yr monthIndex day = Some 0) [1..daysInMonth])"

text \<open>
  \<open>getHolidaysInMonth\<close> returns \<open>holidays[month] || []\<close> from a table keyed by the
  twelve month names; the year is not used. This is the array it returns for a name
  of the table and for a name no object has. For a name that the table inherits from
  \<open>Object.prototype\<close> the lookup finds something else; that case is
  \<open>getHolidaysInMonth_value\<close> below.
\<close>

definition getHolidaysInMonth :: "string \<Rightarrow> int \<Rightarrow> int list" where
  "getHolidaysInMonth mon yr =
     (case map_of
        [(''Jan'', [1, 26]), (''Feb'', []), (''Mar'', [21]), (''Apr'', [14]), (''May'', [1]),
         (''Jun'', []), (''Jul'', []), (''Aug'', [15]), (''Sep'', []), (''Oct'', [2, 24]),
         (''Nov'', [12]), (''Dec'', [25])] mon of
        Some days \<Rightarrow> days
      | None \<Rightarrow> [])"

text \<open>
  An attendance object maps day numbers to codes. It is an association list in which
  the first pair of a key is the key's property; \<open>attendance[day]\<close> is \<^const>\<open>map_of\<close>,
  \<open>undefined\<close> being \<open>None\<close>. The ten counters are JavaScript numbers: every value
  the program computes is a multiple of one half far below \<open>2^53\<close>, which a double
  represents exactly, so they are rationals here.
\<close>

type_synonym attendance = "(int \<times> string) list"

record summaries =
  totalPresent :: rat
  totalOff :: rat
  totalSundays :: rat
  totalHolidays :: rat
  totalNightShift :: rat
  totalHolyDayWorking :: rat
  totalOffDayWorking :: rat
  totalAbsent :: rat
  totalOnLeave :: rat
  totalWorkingDays :: rat

definition DEFAULT_summaries :: summaries where
  "DEFAULT_summaries =
     \<lparr>totalPresent = 0, totalOff = 0, totalSundays = 0, totalHolidays = 0,
      totalNightShift = 0, totalHolyDayWorking = 0, totalOffDayWorking = 0,
      totalAbsent = 0, totalOnLeave = 0, totalWorkingDays = 0\<rparr>"

text \<open>
  The body of the first loop of \<open>calculateSummaries\<close>, for one day:
  \<^verbatim>\<open>
    const code = attendance[day];
    if (!code) continue;
    const upperCode = code.toUpperCase();
    switch (upperCode) {
      case 'P': summaries.totalPresent++; break;
      case 'A': summaries.totalAbsent++; break;
      case 'O': summaries.totalOff++; break;
      case 'S': summaries.totalSundays++; break;
      case 'H': summaries.totalHolidays++; break;
      case 'N': summaries.totalNightShift++; break;
      case 'L': summaries.totalOnLeave++; break;
      case 'WFH': summaries.totalPresent++; break;
      case 'HD': summaries.totalPresent += 0.5; break;
      default: break;
    }
  \<close>
\<close>

definition first_pass_step :: "attendance \<Rightarrow> int \<Rightarrow> summaries \<Rightarrow> summaries" where
  "first_pass_step att day s =
     (case map_of att day of
        None \<Rightarrow> s
      | Some code \<Rightarrow>
          if code = [] then s
          else let upperCode = toUpperCase code
               in if upperCode = ''P'' then s\<lparr>totalPresent := totalPresent s + 1\<rparr>
                  else if upperCode = ''A'' then s\<lparr>totalAbsent := totalAbsent s + 1\<rparr>
                  else if upperCode = ''O'' then s\<lparr>totalOff := totalOff s + 1\<rparr>
                  else if upperCode = ''S'' then s\<lparr>totalSundays := totalSundays s + 1\<rparr>
                  else if upperCode = ''H'' then s\<lparr>totalHolidays := totalHolidays s + 1\<rparr>
                  else if upperCode = ''N'' then s\<lparr>totalNightShift := totalNightShift s + 1\<rparr>
                  else if upperCode = ''L'' then s\<lparr>totalOnLeave := totalOnLeave s + 1\<rparr>
                  else if upperCode = ''WFH'' then s\<lparr>totalPresent := totalPresent s + 1\<rparr>
                  else if upperCode = ''HD'' then s\<lparr>totalPresent := totalPresent s + 1 / 2\<rparr>
                  else s)"

text \<open>
  The body of the second loop, for one day:
  \<^verbatim>\<open>
    const code = attendance[day];
    if (!code) continue;
    const upperCode = code.toUpperCase();
    if ((sundays.includes(day) || holidays.includes(day)) &&
        (upperCode === 'P' || upperCode === 'N' || upperCode === 'WFH')) {
      summaries.totalHolyDayWorking++;
    }
    if (day > 1) {
      const prevDayCode = attendance[day - 1]?.toUpperCase();
      if (prevDayCode === 'O' && (upperCode === 'P' || upperCode === 'N' || upperCode === 'WFH')) {
        summaries.totalOffDayWorking++;
      }
    }
  \<close>
\<close>

definition second_pass_step ::
  "attendance \<Rightarrow> int list \<Rightarrow> int list \<Rightarrow> int \<Rightarrow> summaries \<Rightarrow> summaries" where
  "second_pass_step att sundays holidays day s =
     (case map_of att day of
        None \<Rightarrow> s
      | Some code \<Rightarrow>
          if code = [] then s
          else let upperCode = toUpperCase code;
                   s1 = (if (day \<in> set sundays \<or> day \<in> set holidays) \<and>
                            (upperCode = ''P'' \<or> upperCode = ''N'' \<or> upperCode = ''WFH'')
                         then s\<lparr>totalHolyDayWorking := totalHolyDayWorking s + 1\<rparr>
                         else s)
               in if day > 1
                  then let prevDayCode = map_option toUpperCase (map_of att (day - 1))
                       in if prevDayCode = Some ''O'' \<and>
                             (upperCode = ''P'' \<or> upperCode = ''N'' \<or> upperCode = ''WFH'')
                          then s1\<lparr>totalOffDayWorking := totalOffDayWorking s1 + 1\<rparr>
                          else s1
                  else s1)"

text \<open>
  \<open>calculateSummaries\<close>: both loops run over the days 1 to \<open>daysInMonth\<close>; then
  \<^verbatim>\<open>
  summaries.totalWorkingDays = Math.floor(
    summaries.totalPresent + summaries.totalOff + summaries.totalSundays +
    summaries.totalHolidays + summaries.totalNightShift +
    (summaries.totalHolyDayWorking * 2) + (summaries.totalOffDayWorking * 0.5));
  summaries.totalPresent = Math.floor(summaries.totalPresent);
  return summaries;
  \<close>
\<close>

definition calculateSummaries :: "attendance \<Rightarrow> string \<Rightarrow> int \<Rightarrow> summaries" where
  "calculateSummaries att mon yr =
     (let daysInMonth = getDaysInMonth mon yr;
          sundays = getSundaysInMonth mon yr;
          holidays = getHolidaysInMonth mon yr;
          s1 = fold (first_pass_step att) [1..daysInMonth] DEFAULT_summaries;
          s2 = fold (second_pass_step att sundays holidays) [1..daysInMonth] s1;
          s3 = s2\<lparr>totalWorkingDays :=
                    of_int \<lfloor>totalPresent s2 + totalOff s2 + totalSundays s2 + totalHolidays s2
                            + totalNightShift s2 + totalHolyDayWorking s2 * 2
                            + totalOffDayWorking s2 * (1 / 2)\<rfloor>\<rparr>
      in s3\<lparr>totalPresent := of_int \<lfloor>totalPresent s3\<rfloor>\<rparr>)"

section \<open>Month names inherited from Object.prototype\<close>

text \<open>
  \<open>holidays\<close> is a plain object, so \<open>holidays[month]\<close> also finds the properties
  every object inherits from \<open>Object.prototype\<close>. They are functions (for
  \<open>__proto__\<close>, the prototype object itself): truthy, so \<open>|| []\<close> keeps them, and
  without a method \<open>includes\<close>, so \<open>holidays.includes(day)\<close> raises a \<open>TypeError\<close>.
  None of these names is a key of the table.
\<close>

definition Object_prototype_names :: "string list" where
  "Object_prototype_names =
     [''constructor'', ''hasOwnProperty'', ''isPrototypeOf'', ''propertyIsEnumerable'',
      ''toLocaleString'', ''toString'', ''valueOf'', ''__defineGetter__'',
      ''__defineSetter__'', ''__lookupGetter__'', ''__lookupSetter__'', ''__proto__'']"

datatype holidays_value = Array "int list" | Inherited

datatype error = TypeError

definition getHolidaysInMonth_value :: "string \<Rightarrow> int \<Rightarrow> holidays_value" where
  "getHolidaysInMonth_value mon yr =
     (if mon \<in> set Object_prototype_names then Inherited
      else Array (getHolidaysInMonth mon yr))"

definition holidays_includes :: "holidays_value \<Rightarrow> int \<Rightarrow> error + bool" where
  "holidays_includes holidays day =
     (case holidays of Array days \<Rightarrow> Inr (day \<in> set days) | Inherited \<Rightarrow> Inl TypeError)"

text \<open>
  The second loop with the raise written out. In
  \<open>(sundays.includes(day) || holidays.includes(day)) && (...)\<close> the call on
  \<open>holidays\<close> is made exactly when the day carries a code and is not a Sunday.
\<close>

definition second_pass_step_raising ::
  "attendance \<Rightarrow> int list \<Rightarrow> holidays_value \<Rightarrow> int \<Rightarrow> summaries \<Rightarrow> error + summaries" where
  "second_pass_step_raising att sundays holidays day s =
     (case map_of att day of
        None \<Rightarrow> Inr s
      | Some code \<Rightarrow>
          if code = [] then Inr s
          else case (if day \<in> set sundays then Inr True else holidays_includes holidays day) of
                 Inl e \<Rightarrow> Inl e
               | Inr holy_day \<Rightarrow>
                   Inr (let upperCode = toUpperCase code;
                            s1 = (if holy_day \<and>
                                     (upperCode = ''P'' \<or> upperCode = ''N'' \<or> upperCode = ''WFH'')
                                  then s\<lparr>totalHolyDayWorking := totalHolyDayWorking s + 1\<rparr>
                                  else s)
                        in if day > 1
                           then let prevDayCode = map_option toUpperCase (map_of att (day - 1))
                                in if prevDayCode = Some ''O'' \<and>
                                      (upperCode = ''P'' \<or> upperCode = ''N'' \<or> upperCode = ''WFH'')
                                   then s1\<lparr>totalOffDayWorking := totalOffDayWorking s1 + 1\<rparr>
                                   else s1
                           else s1))"

fun second_pass_raising ::
  "attendance \<Rightarrow> int list \<Rightarrow> holidays_value \<Rightarrow> int list \<Rightarrow> summaries \<Rightarrow> error + summaries" where
  "second_pass_raising att sundays holidays [] s = Inr s"
| "second_pass_raising att sundays holidays (day # days) s =
     (case second_pass_step_raising att sundays holidays day s of
        Inl e \<Rightarrow> Inl e
      | Inr s' \<Rightarrow> second_pass_raising att sundays holidays days s')"

text \<open>
  \<open>calculateSummaries\<close> with the raise written out: \<open>Inl TypeError\<close> where the call
  raises, \<open>Inr\<close> of the returned summary otherwise.
\<close>

definition calculateSummaries_raising :: "attendance \<Rightarrow> string \<Rightarrow> int \<Rightarrow> error + summaries" where
  "calculateSummaries_raising att mon yr =
     (let daysInMonth = getDaysInMonth mon yr;
          sundays = getSundaysInMonth mon yr;
          holidays = getHolidaysInMonth_value mon yr;
          s1 = fold (first_pass_step att) [1..daysInMonth] DEFAULT_summaries
      in case second_pass_raising att sundays holidays [1..daysInMonth] s1 of
           Inl e \<Rightarrow> Inl e
         | Inr s2 \<Rightarrow>
             let s3 = s2\<lparr>totalWorkingDays :=
                         of_int \<lfloor>totalPresent s2 + totalOff s2 + totalSundays s2
                                 + totalHolidays s2 + totalNightShift s2
                                 + totalHolyDayWorking s2 * 2
                                 + totalOffDayWorking s2 * (1 / 2)\<rfloor>\<rparr>
             in Inr (s3\<lparr>totalPresent := of_int \<lfloor>totalPresent s3\<rfloor>\<rparr>))"

section \<open>Employee records and the object store\<close>

text \<open>
  An employee object holds a reference to its attendance object, and the record
  mutators write through that reference, so attendance objects live in a store.
  Employee objects and summaries are values: no function writes into one it did not
  create. \<open>{ ...employee }\<close> makes a new employee object with the same fields, the
  attendance reference among them. The fields are those of \<open>DEFAULT_EMPLOYEE\<close>;
  further fields (department, monthlyData, ...) are the record's extension.
\<close>

type_synonym ref = nat

record employee =
  slNo :: int
  empId :: string
  employeeName :: string
  month :: string
  attendance :: ref
  summaries :: summaries

record heap =
  objects :: "ref \<Rightarrow> attendance"
  next_ref :: ref

text \<open>\<open>obj[day] = v\<close>, \<open>delete obj[day]\<close> and a fresh object literal.\<close>

definition set_prop :: "heap \<Rightarrow> ref \<Rightarrow> int \<Rightarrow> string \<Rightarrow> heap" where
  "set_prop h r day v = h\<lparr>objects := (objects h)(r := AList.update day v (objects h r))\<rparr>"

definition delete_prop :: "heap \<Rightarrow> ref \<Rightarrow> int \<Rightarrow> heap" where
  "delete_prop h r day = h\<lparr>objects := (objects h)(r := AList.delete day (objects h r))\<rparr>"

definition new_object :: "heap \<Rightarrow> attendance \<Rightarrow> heap \<times> ref" where
  "new_object h obj =
     (h\<lparr>objects := (objects h)(next_ref h := obj), next_ref := Suc (next_ref h)\<rparr>, next_ref h)"

section \<open>Record mutators (updateEmployeeAttendance .. clearAttendance)\<close>

text \<open>
  \<^verbatim>\<open>
  export const updateEmployeeAttendance = (employee, day, code, month, year) => {
    const updatedEmployee = { ...employee };
    if (code && code !== '') {
      updatedEmployee.attendance[day] = code.toUpperCase();
    } else {
      delete updatedEmployee.attendance[day];
    }
    updatedEmployee.summaries = calculateSummaries(updatedEmployee.attendance, month, year);
    return updatedEmployee;
  };
  \<close>
\<close>

definition updateEmployeeAttendance ::
  "heap \<Rightarrow> employee \<Rightarrow> int \<Rightarrow> string \<Rightarrow> string \<Rightarrow> int \<Rightarrow> heap \<times> employee" where
  "updateEmployeeAttendance h employee day code mon yr =
     (let updatedEmployee = employee;
          h1 = (if code \<noteq> []
                then set_prop h (attendance updatedEmployee) day (toUpperCase code)
                else delete_prop h (attendance updatedEmployee) day)
      in (h1, updatedEmployee\<lparr>summaries :=
                calculateSummaries (objects h1 (attendance updatedEmployee)) mon yr\<rparr>))"

text \<open>
  \<open>bulkUpdateAttendance\<close> does the same for every entry of \<open>updates\<close>, an object of
  its own (passed by value here), and recalculates once:
  \<^verbatim>\<open>
    Object.entries(updates).forEach(([day, code]) => {
      if (code && code !== '') {
        updatedEmployee.attendance[parseInt(day)] = code.toUpperCase();
      } else {
        delete updatedEmployee.attendance[parseInt(day)];
      }
    });
  \<close>
  \<open>Object.entries\<close> lists each key once with its value.
\<close>

definition bulkUpdateAttendance ::
  "heap \<Rightarrow> employee \<Rightarrow> attendance \<Rightarrow> string \<Rightarrow> int \<Rightarrow> heap \<times> employee" where
  "bulkUpdateAttendance h employee updates mon yr =
     (let updatedEmployee = employee;
          h1 = fold (\<lambda>(day, code) h'.
                       if code \<noteq> []
                       then set_prop h' (attendance updatedEmployee) day (toUpperCase code)
                       else delete_prop h' (attendance updatedEmployee) day)
                 (AList.clearjunk updates) h
      in (h1, updatedEmployee\<lparr>summaries :=
                calculateSummaries (objects h1 (attendance updatedEmployee)) mon yr\<rparr>))"

text \<open>
  \<^verbatim>\<open>
  export const markWeekends = (employee, month, year, code = 'S') => {
    const updatedEmployee = { ...employee };
    const sundays = getSundaysInMonth(month, year);
    sundays.forEach(day => {
      if (!updatedEmployee.attendance[day]) {
        updatedEmployee.attendance[day] = code;
      }
    });
    updatedEmployee.summaries = calculateSummaries(updatedEmployee.attendance, month, year);
    return updatedEmployee;
  };
  \<close>
  \<open>markHolidays\<close> is the same function over \<open>getHolidaysInMonth(month, year)\<close>, with
  the default code \<open>'H'\<close>. \<open>!v\<close> holds of \<open>undefined\<close> and of the empty string.
\<close>

definition falsy :: "string option \<Rightarrow> bool" where
  "falsy v = (case v of None \<Rightarrow> True | Some code \<Rightarrow> code = [])"

definition fill_day :: "ref \<Rightarrow> string \<Rightarrow> int \<Rightarrow> heap \<Rightarrow> heap" where
  "fill_day r code day h = (if falsy (map_of (objects h r) day) then set_prop h r day code else h)"

definition markWeekends ::
  "heap \<Rightarrow> employee \<Rightarrow> string \<Rightarrow> int \<Rightarrow> string \<Rightarrow> heap \<times> employee" where
  "markWeekends h employee mon yr code =
     (let updatedEmployee = employee;
          sundays = getSundaysInMonth mon yr;
          h1 = fold (fill_day (attendance updatedEmployee) code) sundays h
      in (h1, updatedEmployee\<lparr>summaries :=
                calculateSummaries (objects h1 (attendance updatedEmployee)) mon yr\<rparr>))"

definition markHolidays ::
  "heap \<Rightarrow> employee \<Rightarrow> string \<Rightarrow> int \<Rightarrow> string \<Rightarrow> heap \<times> employee" where
  "markHolidays h employee mon yr code =
     (let updatedEmployee = employee;
          holidays = getHolidaysInMonth mon yr;
          h1 = fold (fill_day (attendance updatedEmployee) code) holidays h
      in (h1, updatedEmployee\<lparr>summaries :=
                calculateSummaries (objects h1 (attendance updatedEmployee)) mon yr\<rparr>))"

text \<open>
  \<^verbatim>\<open>
  export const clearAttendance = (employee) => {
    return { ...employee, attendance: {}, summaries: { ...DEFAULT_EMPLOYEE.summaries } };
  };
  \<close>
\<close>

definition clearAttendance :: "heap \<Rightarrow> employee \<Rightarrow> heap \<times> employee" where
  "clearAttendance h employee =
     (let (h1, r) = new_object h []
      in (h1, employee\<lparr>attendance := r, summaries := DEFAULT_summaries\<rparr>))"

text \<open>
  A store and an employee to run the mutators on: one attendance object, \<open>{2: 'A'}\<close>,
  owned by one employee whose summary is the one of that attendance in January 2024.
\<close>

definition heap0 :: heap where
  "heap0 = \<lparr>objects = (\<lambda>r. [])(0 := [(2, ''A'')]), next_ref = 1\<rparr>"

definition employee0 :: employee where
  "employee0 =
     \<lparr>slNo = 1, empId = ''QR-417'', employeeName = ''Asha Rao'', month = ''Jan'',
      attendance = 0, summaries = DEFAULT_summaries\<lparr>totalAbsent := 1\<rparr>\<rparr>"

section \<open>Consecutive absences (src/utils/calculations.js)\<close>

text \<open>
  \<open>Object.keys(attendance).map(Number).sort((a, b) => a - b)\<close>: the keys of the
  object, each once, in ascending order.
\<close>

definition Object_keys :: "attendance \<Rightarrow> int list" where
  "Object_keys att = remdups (map fst att)"

record absence_instance =
  start :: int
  end_day :: int
  count :: int

record absences =
  maxConsecutive :: int
  currentConsecutive :: int
  totalInstances :: int
  instances :: "absence_instance list"

text \<open>
  The body of the \<open>forEach\<close> for one day; \<open>rest\<close> is what follows the day in \<open>days\<close>,
  so that \<open>index === days.length - 1\<close> is \<open>rest = []\<close> and \<open>days[index + 1]\<close> is the
  head of \<open>rest\<close>. The field \<open>end\<close> of an instance is \<open>end_day\<close> here.
  \<^verbatim>\<open>
    if (attendance[day]?.toUpperCase() === 'A') {
      currentConsecutive++;
      if (index === days.length - 1 || attendance[days[index + 1]]?.toUpperCase() !== 'A') {
        if (currentConsecutive > 0) {
          instances.push({ start: day - currentConsecutive + 1, end: day,
                           count: currentConsecutive });
          maxConsecutive = Math.max(maxConsecutive, currentConsecutive);
          totalInstances++;
          currentConsecutive = 0;
        }
      }
    } else {
      currentConsecutive = 0;
    }
  \<close>
\<close>

definition absence_step :: "attendance \<Rightarrow> int \<Rightarrow> int list \<Rightarrow> absences \<Rightarrow> absences" where
  "absence_step att day rest st =
     (if map_option toUpperCase (map_of att day) = Some ''A''
      then let st1 = st\<lparr>currentConsecutive := currentConsecutive st + 1\<rparr>
           in if (case rest of
                    [] \<Rightarrow> True
                  | next_day # _ \<Rightarrow> map_option toUpperCase (map_of att next_day) \<noteq> Some ''A'')
              then if currentConsecutive st1 > 0
                   then st1\<lparr>instances := instances st1 @
                                [\<lparr>start = day - currentConsecutive st1 + 1, end_day = day,
                                  count = currentConsecutive st1\<rparr>],
                             maxConsecutive := max (maxConsecutive st1) (currentConsecutive st1),
                             totalInstances := totalInstances st1 + 1,
                             currentConsecutive := 0\<rparr>
                   else st1
              else st1
      else st\<lparr>currentConsecutive := 0\<rparr>)"

fun scan_days :: "attendance \<Rightarrow> int list \<Rightarrow> absences \<Rightarrow> absences" where
  "scan_days att [] st = st"
| "scan_days att (day # rest) st = scan_days att rest (absence_step att day rest st)"

text \<open>
  \<open>calculateConsecutiveAbsences\<close> returns \<open>maxConsecutive\<close>, \<open>totalInstances\<close> and
  \<open>instances\<close>; the running counter is a local variable, kept in the same record.
\<close>

definition calculateConsecutiveAbsences :: "attendance \<Rightarrow> absences" where
  "calculateConsecutiveAbsences att =
     (let days = sort (Object_keys att)
      in scan_days att days
           \<lparr>maxConsecutive = 0, currentConsecutive = 0, totalInstances = 0, instances = []\<rparr>)"

section \<open>Vocabulary of the properties\<close>

text \<open>
  The code a day carries, as the summary engine compares it: upper-cased, and empty
  when the day has no entry.
\<close>

definition code_at :: "attendance \<Rightarrow> int \<Rightarrow> string" where
  "code_at att day = (case map_of att day of None \<Rightarrow> [] | Some code \<Rightarrow> toUpperCase code)"

text \<open>The number of days among \<open>days\<close> that carry the code \<open>c\<close>.\<close>

definition days_coded :: "attendance \<Rightarrow> int list \<Rightarrow> string \<Rightarrow> nat" where
  "days_coded att days c = length (filter (\<lambda>day. code_at att day = c) days)"

text \<open>A working code: one of P, N and WFH.\<close>

definition working :: "string \<Rightarrow> bool" where
  "working c = (c = ''P'' \<or> c = ''N'' \<or> c = ''WFH'')"

text \<open>
  The code of a day as far as the registry knows it: the day's code when it is one of
  the nine, empty otherwise.
\<close>

definition recognized_code :: "attendance \<Rightarrow> int \<Rightarrow> string" where
  "recognized_code att day =
     (let c = code_at att day in if c \<in> set ATTENDANCE_CODES then c else [])"

text \<open>
  The present count before it is floored: one per day coded P or WFH and one half per
  day coded HD.
\<close>

definition present_unfloored :: "attendance \<Rightarrow> int list \<Rightarrow> rat" where
  "present_unfloored att days =
     of_nat (days_coded att days ''P'') + of_nat (days_coded att days ''WFH'')
       + of_nat (days_coded att days ''HD'') / 2"

text \<open>
  The maximal runs of absent days in a list of days, by adjacency in the list: a run
  starts at an absent day, takes the absent days that follow it directly, and is
  closed by the first day that is not absent or by the end of the list.
\<close>

function absence_runs :: "(int \<Rightarrow> bool) \<Rightarrow> int list \<Rightarrow> int list list" where
  "absence_runs absent [] = []"
| "absence_runs absent (d # ds) =
     (if absent d then (d # takeWhile absent ds) # absence_runs absent (dropWhile absent ds)
      else absence_runs absent ds)"
  by pat_completeness auto
termination
  by (relation "measure (\<lambda>(absent, ds). length ds)")
     (auto simp: less_Suc_eq_le length_dropWhile_le)

text \<open>What is recorded for a closed run.\<close>

definition instance_of_run :: "int list \<Rightarrow> absence_instance" where
  "instance_of_run run =
     \<lparr>start = last run - int (length run) + 1, end_day = last run, count = int (length run)\<rparr>"


section \<open>Verified properties\<close>

subsection \<open>Code registry\<close>

lemma up_codes:
  "toUpperCase ''P'' = ''P''" "toUpperCase ''A'' = ''A''" "toUpperCase ''O'' = ''O''"
  "toUpperCase ''S'' = ''S''" "toUpperCase ''H'' = ''H''" "toUpperCase ''N'' = ''N''"
  "toUpperCase ''L'' = ''L''" "toUpperCase ''HD'' = ''HD''" "toUpperCase ''WFH'' = ''WFH''"
  by (simp_all add: toUpperCase_def upper_char_def)

lemma toUpperCase_Nil_iff [simp]: "toUpperCase s = [] \<longleftrightarrow> s = []"
  by (simp add: toUpperCase_def)

lemma toUpperCase_Nil [simp]: "toUpperCase [] = []"
  by (simp add: toUpperCase_def)

text \<open>
  C4. \<open>normalizeAttendanceCode\<close> is idempotent and closed: for every string its
  result is the empty string or one of the nine codes, normalising a result gives the
  same result, and the legacy \<open>a\<close> normalises to \<open>A\<close>.
\<close>

theorem normalizeAttendanceCode_idempotent_closed:
  "normalizeAttendanceCode (normalizeAttendanceCode x) = normalizeAttendanceCode x
   \<and> normalizeAttendanceCode x \<in> set ([] # ATTENDANCE_CODES)
   \<and> normalizeAttendanceCode ''a'' = ''A''"
proof -
  have closed: "normalizeAttendanceCode x \<in> set ([] # ATTENDANCE_CODES)"
    by (simp add: normalizeAttendanceCode_def Let_def ATTENDANCE_CODES_def)
  have fixed: "normalizeAttendanceCode c = c" if "c \<in> set ([] # ATTENDANCE_CODES)" for c
    using that by (auto simp: normalizeAttendanceCode_def ATTENDANCE_CODES_def up_codes)
  have a: "normalizeAttendanceCode ''a'' = ''A''"
    by (simp add: normalizeAttendanceCode_def toUpperCase_def upper_char_def)
  from fixed [OF closed] closed a show ?thesis by simp
qed

subsection \<open>Calendar helper\<close>

lemma smod_eq_0_iff_dvd: "(k::int) smod l = 0 \<longleftrightarrow> l dvd k"
  by (auto simp: signed_modulo_int_def sgn_if dvd_eq_mod_eq_0 [symmetric])

lemma findIndex_none: "\<forall>x\<in>set xs. \<not> p x \<Longrightarrow> findIndex p xs = -1"
  by (induction xs) auto

text \<open>
  C5. \<open>getDaysInMonth\<close> returns the standard length of every known month; for
  \<open>Feb\<close> it returns 29 exactly when the year is divisible by 4 and not by 100, or
  divisible by 400 (29 for 2024 and 2000, 28 for 2023 and 1900); for a month name
  that is not in the table it returns 31.
\<close>

theorem getDaysInMonth_lengths:
  "getDaysInMonth ''Jan'' y = 31 \<and> getDaysInMonth ''Mar'' y = 31 \<and> getDaysInMonth ''Apr'' y = 30
   \<and> getDaysInMonth ''May'' y = 31 \<and> getDaysInMonth ''Jun'' y = 30 \<and> getDaysInMonth ''Jul'' y = 31
   \<and> getDaysInMonth ''Aug'' y = 31 \<and> getDaysInMonth ''Sep'' y = 30 \<and> getDaysInMonth ''Oct'' y = 31
   \<and> getDaysInMonth ''Nov'' y = 30 \<and> getDaysInMonth ''Dec'' y = 31
   \<and> getDaysInMonth ''Feb'' y = (if (4 dvd y \<and> \<not> 100 dvd y) \<or> 400 dvd y then 29 else 28)
   \<and> getDaysInMonth ''Feb'' 2024 = 29 \<and> getDaysInMonth ''Feb'' 2023 = 28
   \<and> getDaysInMonth ''Feb'' 2000 = 29 \<and> getDaysInMonth ''Feb'' 1900 = 28
   \<and> (m \<notin> set (map fst MONTHS) \<longrightarrow> getDaysInMonth m y = 31)"
proof -
  have feb: "getDaysInMonth ''Feb'' z = (if (4 dvd z \<and> \<not> 100 dvd z) \<or> 400 dvd z then 29 else 28)" for z
    by (simp add: getDaysInMonth_def MONTHS_def smod_eq_0_iff_dvd)
  have unknown: "getDaysInMonth m y = 31" if "m \<notin> set (map fst MONTHS)"
  proof -
    from that have "findIndex (\<lambda>e. fst e = m) MONTHS = -1"
      by (intro findIndex_none) auto
    then show ?thesis by (simp add: getDaysInMonth_def)
  qed
  have others: "getDaysInMonth ''Jan'' y = 31" "getDaysInMonth ''Mar'' y = 31" "getDaysInMonth ''Apr'' y = 30"
    "getDaysInMonth ''May'' y = 31" "getDaysInMonth ''Jun'' y = 30" "getDaysInMonth ''Jul'' y = 31"
    "getDaysInMonth ''Aug'' y = 31" "getDaysInMonth ''Sep'' y = 30" "getDaysInMonth ''Oct'' y = 31"
    "getDaysInMonth ''Nov'' y = 30" "getDaysInMonth ''Dec'' y = 31"
    by (simp_all add: getDaysInMonth_def MONTHS_def)
  have ex: "getDaysInMonth ''Feb'' 2024 = 29" "getDaysInMonth ''Feb'' 2023 = 28"
    "getDaysInMonth ''Feb'' 2000 = 29" "getDaysInMonth ''Feb'' 1900 = 28"
    by (simp_all add: feb)
  from feb [of y] unknown others ex show ?thesis by blast
qed

theorem getDaysInMonth_lengths_witness:
  "''Smarch'' \<notin> set (map fst MONTHS) \<and> getDaysInMonth ''Smarch'' 2024 = 31"
  using getDaysInMonth_lengths [of 2024 "''Smarch''"] by (simp add: MONTHS_def)

subsection \<open>Summary engine\<close>

lemma first_pass_step_code:
  "first_pass_step att day s =
     (let c = code_at att day in
      if c = ''P'' then s\<lparr>totalPresent := totalPresent s + 1\<rparr>
      else if c = ''A'' then s\<lparr>totalAbsent := totalAbsent s + 1\<rparr>
      else if c = ''O'' then s\<lparr>totalOff := totalOff s + 1\<rparr>
      else if c = ''S'' then s\<lparr>totalSundays := totalSundays s + 1\<rparr>
      else if c = ''H'' then s\<lparr>totalHolidays := totalHolidays s + 1\<rparr>
      else if c = ''N'' then s\<lparr>totalNightShift := totalNightShift s + 1\<rparr>
      else if c = ''L'' then s\<lparr>totalOnLeave := totalOnLeave s + 1\<rparr>
      else if c = ''WFH'' then s\<lparr>totalPresent := totalPresent s + 1\<rparr>
      else if c = ''HD'' then s\<lparr>totalPresent := totalPresent s + 1 / 2\<rparr>
      else s)"
proof (cases "map_of att day")
  case None
  then have "code_at att day = []" by (simp add: code_at_def)
  with None show ?thesis by (simp add: first_pass_step_def)
next
  case (Some code)
  show ?thesis
  proof (cases "code = []")
    case True
    with Some have "code_at att day = []" by (simp add: code_at_def)
    with Some True show ?thesis by (simp add: first_pass_step_def)
  next
    case False
    from Some have c: "code_at att day = toUpperCase code" by (simp add: code_at_def)
    show ?thesis
      unfolding first_pass_step_def Some c option.case if_not_P [OF False] by (rule refl)
  qed
qed

lemma prev_code_at:
  "(map_option toUpperCase (map_of att d) = Some ''O'') = (code_at att d = ''O'')"
  by (cases "map_of att d") (auto simp: code_at_def)

lemma not_working_Nil [simp]: "\<not> working []"
  by (simp add: working_def)

lemma second_pass_step_code:
  "second_pass_step att sundays holidays day s =
     (let c = code_at att day;
          s1 = (if (day \<in> set sundays \<or> day \<in> set holidays) \<and> working c
                then s\<lparr>totalHolyDayWorking := totalHolyDayWorking s + 1\<rparr> else s)
      in if day > 1 \<and> code_at att (day - 1) = ''O'' \<and> working c
         then s1\<lparr>totalOffDayWorking := totalOffDayWorking s1 + 1\<rparr> else s1)"
proof (cases "map_of att day")
  case None
  then have "code_at att day = []" by (simp add: code_at_def)
  with None show ?thesis by (simp add: second_pass_step_def)
next
  case (Some code)
  show ?thesis
  proof (cases "code = []")
    case True
    with Some have "code_at att day = []" by (simp add: code_at_def)
    with Some True show ?thesis by (simp add: second_pass_step_def)
  next
    case False
    from Some have c: "code_at att day = toUpperCase code" by (simp add: code_at_def)
    have w: "(toUpperCase code = ''P'' \<or> toUpperCase code = ''N'' \<or> toUpperCase code = ''WFH'')
               = working (toUpperCase code)"
      by (simp add: working_def)
    show ?thesis
      unfolding second_pass_step_def Some c option.case if_not_P [OF False] Let_def w prev_code_at
      by (cases "1 < day") simp_all
  qed
qed

lemma first_pass_step_totalPresent:
  "totalPresent (first_pass_step att d s) =
     totalPresent s + ((if code_at att d = ''P'' \<or> code_at att d = ''WFH'' then 1 else 0)
       + (if code_at att d = ''HD'' then 1 / 2 else 0))"
  by (simp add: first_pass_step_code Let_def)

lemma first_pass_step_counters:
  "totalOff (first_pass_step att d s) = totalOff s + (if code_at att d = ''O'' then 1 else 0)"
  "totalSundays (first_pass_step att d s) = totalSundays s + (if code_at att d = ''S'' then 1 else 0)"
  "totalHolidays (first_pass_step att d s) = totalHolidays s + (if code_at att d = ''H'' then 1 else 0)"
  "totalNightShift (first_pass_step att d s) = totalNightShift s + (if code_at att d = ''N'' then 1 else 0)"
  "totalAbsent (first_pass_step att d s) = totalAbsent s + (if code_at att d = ''A'' then 1 else 0)"
  "totalOnLeave (first_pass_step att d s) = totalOnLeave s + (if code_at att d = ''L'' then 1 else 0)"
  "totalHolyDayWorking (first_pass_step att d s) = totalHolyDayWorking s"
  "totalOffDayWorking (first_pass_step att d s) = totalOffDayWorking s"
  "totalWorkingDays (first_pass_step att d s) = totalWorkingDays s"
  by (simp_all add: first_pass_step_code Let_def)

lemma second_pass_step_counters:
  "totalHolyDayWorking (second_pass_step att sundays holidays d s) =
     totalHolyDayWorking s
       + (if (d \<in> set sundays \<or> d \<in> set holidays) \<and> working (code_at att d) then 1 else 0)"
  "totalOffDayWorking (second_pass_step att sundays holidays d s) =
     totalOffDayWorking s
       + (if d > 1 \<and> code_at att (d - 1) = ''O'' \<and> working (code_at att d) then 1 else 0)"
  "totalPresent (second_pass_step att sundays holidays d s) = totalPresent s"
  "totalOff (second_pass_step att sundays holidays d s) = totalOff s"
  "totalSundays (second_pass_step att sundays holidays d s) = totalSundays s"
  "totalHolidays (second_pass_step att sundays holidays d s) = totalHolidays s"
  "totalNightShift (second_pass_step att sundays holidays d s) = totalNightShift s"
  "totalAbsent (second_pass_step att sundays holidays d s) = totalAbsent s"
  "totalOnLeave (second_pass_step att sundays holidays d s) = totalOnLeave s"
  "totalWorkingDays (second_pass_step att sundays holidays d s) = totalWorkingDays s"
  by (simp_all add: second_pass_step_code Let_def)

lemma fold_field_add:
  fixes f :: "'s \<Rightarrow> rat"
  assumes "\<And>d s. f (step d s) = f s + g d"
  shows "f (fold step ds s) = f s + sum_list (map g ds)"
  by (induction ds arbitrary: s) (simp_all add: assms add.assoc)

lemma fold_field_same:
  assumes "\<And>d s. f (step d s) = f s"
  shows "f (fold step ds s) = f s"
  by (induction ds arbitrary: s) (simp_all add: assms)

lemma sum_list_indicator:
  "sum_list (map (\<lambda>d. if P d then 1 else 0) ds) = (of_nat (length (filter P ds)) :: rat)"
  by (induction ds) simp_all

lemma sum_list_half_indicator:
  "sum_list (map (\<lambda>d. if P d then 1 / 2 else 0) ds) = (of_nat (length (filter P ds)) / 2 :: rat)"
  by (induction ds) (simp_all add: add_divide_distrib)

lemma sum_list_present:
  "sum_list (map (\<lambda>d. (if code_at att d = ''P'' \<or> code_at att d = ''WFH'' then 1 else 0)
       + (if code_at att d = ''HD'' then 1 / 2 else 0)) ds) = present_unfloored att ds"
  by (induction ds) (auto simp: present_unfloored_def days_coded_def add_divide_distrib)

lemma first_pass_fold:
  "totalPresent (fold (first_pass_step att) ds s) = totalPresent s + present_unfloored att ds"
  "totalOff (fold (first_pass_step att) ds s) = totalOff s + of_nat (days_coded att ds ''O'')"
  "totalSundays (fold (first_pass_step att) ds s) = totalSundays s + of_nat (days_coded att ds ''S'')"
  "totalHolidays (fold (first_pass_step att) ds s) = totalHolidays s + of_nat (days_coded att ds ''H'')"
  "totalNightShift (fold (first_pass_step att) ds s) = totalNightShift s + of_nat (days_coded att ds ''N'')"
  "totalAbsent (fold (first_pass_step att) ds s) = totalAbsent s + of_nat (days_coded att ds ''A'')"
  "totalOnLeave (fold (first_pass_step att) ds s) = totalOnLeave s + of_nat (days_coded att ds ''L'')"
  "totalHolyDayWorking (fold (first_pass_step att) ds s) = totalHolyDayWorking s"
  "totalOffDayWorking (fold (first_pass_step att) ds s) = totalOffDayWorking s"
  "totalWorkingDays (fold (first_pass_step att) ds s) = totalWorkingDays s"
proof -
  show "totalPresent (fold (first_pass_step att) ds s) = totalPresent s + present_unfloored att ds"
    by (simp add: fold_field_add [where f = totalPresent, OF first_pass_step_totalPresent]
        sum_list_present)
  show "totalOff (fold (first_pass_step att) ds s) = totalOff s + of_nat (days_coded att ds ''O'')"
    by (simp add: fold_field_add [where f = totalOff, OF first_pass_step_counters(1)]
        sum_list_indicator days_coded_def)
  show "totalSundays (fold (first_pass_step att) ds s) = totalSundays s + of_nat (days_coded att ds ''S'')"
    by (simp add: fold_field_add [where f = totalSundays, OF first_pass_step_counters(2)]
        sum_list_indicator days_coded_def)
  show "totalHolidays (fold (first_pass_step att) ds s) = totalHolidays s + of_nat (days_coded att ds ''H'')"
    by (simp add: fold_field_add [where f = totalHolidays, OF first_pass_step_counters(3)]
        sum_list_indicator days_coded_def)
  show "totalNightShift (fold (first_pass_step att) ds s) = totalNightShift s + of_nat (days_coded att ds ''N'')"
    by (simp add: fold_field_add [where f = totalNightShift, OF first_pass_step_counters(4)]
        sum_list_indicator days_coded_def)
  show "totalAbsent (fold (first_pass_step att) ds s) = totalAbsent s + of_nat (days_coded att ds ''A'')"
    by (simp add: fold_field_add [where f = totalAbsent, OF first_pass_step_counters(5)]
        sum_list_indicator days_coded_def)
  show "totalOnLeave (fold (first_pass_step att) ds s) = totalOnLeave s + of_nat (days_coded att ds ''L'')"
    by (simp add: fold_field_add [where f = totalOnLeave, OF first_pass_step_counters(6)]
        sum_list_indicator days_coded_def)
  show "totalHolyDayWorking (fold (first_pass_step att) ds s) = totalHolyDayWorking s"
    by (rule fold_field_same) (rule first_pass_step_counters)
  show "totalOffDayWorking (fold (first_pass_step att) ds s) = totalOffDayWorking s"
    by (rule fold_field_same) (rule first_pass_step_counters)
  show "totalWorkingDays (fold (first_pass_step att) ds s) = totalWorkingDays s"
    by (rule fold_field_same) (rule first_pass_step_counters)
qed

lemma second_pass_fold:
  "totalHolyDayWorking (fold (second_pass_step att sundays holidays) ds s) =
     totalHolyDayWorking s
       + of_nat (length (filter (\<lambda>d. (d \<in> set sundays \<or> d \<in> set holidays) \<and> working (code_at att d)) ds))"
  "totalOffDayWorking (fold (second_pass_step att sundays holidays) ds s) =
     totalOffDayWorking s
       + of_nat (length (filter (\<lambda>d. d > 1 \<and> code_at att (d - 1) = ''O'' \<and> working (code_at att d)) ds))"
  "totalPresent (fold (second_pass_step att sundays holidays) ds s) = totalPresent s"
  "totalOff (fold (second_pass_step att sundays holidays) ds s) = totalOff s"
  "totalSundays (fold (second_pass_step att sundays holidays) ds s) = totalSundays s"
  "totalHolidays (fold (second_pass_step att sundays holidays) ds s) = totalHolidays s"
  "totalNightShift (fold (second_pass_step att sundays holidays) ds s) = totalNightShift s"
  "totalAbsent (fold (second_pass_step att sundays holidays) ds s) = totalAbsent s"
  "totalOnLeave (fold (second_pass_step att sundays holidays) ds s) = totalOnLeave s"
  "totalWorkingDays (fold (second_pass_step att sundays holidays) ds s) = totalWorkingDays s"
proof -
  show "totalHolyDayWorking (fold (second_pass_step att sundays holidays) ds s) =
     totalHolyDayWorking s
       + of_nat (length (filter (\<lambda>d. (d \<in> set sundays \<or> d \<in> set holidays) \<and> working (code_at att d)) ds))"
    by (simp add: fold_field_add [where f = totalHolyDayWorking, OF second_pass_step_counters(1)]
        sum_list_indicator)
  show "totalOffDayWorking (fold (second_pass_step att sundays holidays) ds s) =
     totalOffDayWorking s
       + of_nat (length (filter (\<lambda>d. d > 1 \<and> code_at att (d - 1) = ''O'' \<and> working (code_at att d)) ds))"
    by (simp add: fold_field_add [where f = totalOffDayWorking, OF second_pass_step_counters(2)]
        sum_list_indicator)
qed (rule fold_field_same, rule second_pass_step_counters)+

lemma calculateSummaries_fields:
  fixes att mon yr
  defines "days \<equiv> [1..getDaysInMonth mon yr]"
  defines "r \<equiv> calculateSummaries att mon yr"
  defines "hdw \<equiv> rat_of_nat (length (filter (\<lambda>d. (d \<in> set (getSundaysInMonth mon yr) \<or> d \<in> set (getHolidaysInMonth mon yr)) \<and> working (code_at att d)) days))"
  defines "odw \<equiv> rat_of_nat (length (filter (\<lambda>d. d > 1 \<and> code_at att (d - 1) = ''O'' \<and> working (code_at att d)) days))"
  shows "totalPresent r = of_int \<lfloor>present_unfloored att days\<rfloor>"
    and "totalOff r = of_nat (days_coded att days ''O'')"
    and "totalSundays r = of_nat (days_coded att days ''S'')"
    and "totalHolidays r = of_nat (days_coded att days ''H'')"
    and "totalNightShift r = of_nat (days_coded att days ''N'')"
    and "totalAbsent r = of_nat (days_coded att days ''A'')"
    and "totalOnLeave r = of_nat (days_coded att days ''L'')"
    and "totalHolyDayWorking r = hdw"
    and "totalOffDayWorking r = odw"
    and "totalWorkingDays r =
           of_int \<lfloor>present_unfloored att days + of_nat (days_coded att days ''O'')
                   + of_nat (days_coded att days ''S'') + of_nat (days_coded att days ''H'')
                   + of_nat (days_coded att days ''N'') + hdw * 2 + odw * (1 / 2)\<rfloor>"
  unfolding r_def hdw_def odw_def days_def calculateSummaries_def Let_def
  by (simp_all add: first_pass_fold second_pass_fold DEFAULT_summaries_def)

text \<open>
  C1. For every attendance mapping, \<open>calculateSummaries\<close> computes
  \<open>totalWorkingDays\<close> as the floor of the unfloored present count (one per P or WFH
  day, one half per HD day) plus \<open>totalOff\<close>, \<open>totalSundays\<close>, \<open>totalHolidays\<close>,
  \<open>totalNightShift\<close>, twice \<open>totalHolyDayWorking\<close> and half of
  \<open>totalOffDayWorking\<close>; the returned \<open>totalPresent\<close> is the floor of the same
  unfloored count, taken after the formula has used it.
\<close>

theorem calculateSummaries_totalWorkingDays:
  "let r = calculateSummaries att mon yr;
       unfloored = present_unfloored att [1..getDaysInMonth mon yr]
   in totalWorkingDays r =
        of_int \<lfloor>unfloored + totalOff r + totalSundays r + totalHolidays r + totalNightShift r
                 + 2 * totalHolyDayWorking r + (1 / 2) * totalOffDayWorking r\<rfloor>
      \<and> totalPresent r = of_int \<lfloor>unfloored\<rfloor>"
  unfolding Let_def
  by (simp add: calculateSummaries_fields mult.commute)

theorem calculateSummaries_totalWorkingDays_witness:
  "totalWorkingDays (calculateSummaries [(1, ''HD''), (2, ''O''), (3, ''P'')] ''Jan'' 2024) = 3
   \<and> totalPresent (calculateSummaries [(1, ''HD''), (2, ''O''), (3, ''P'')] ''Jan'' 2024) = 1
   \<and> present_unfloored [(1, ''HD''), (2, ''O''), (3, ''P'')] [1..getDaysInMonth ''Jan'' 2024] = 3 / 2
   \<and> (let r = calculateSummaries [(1, ''HD''), (2, ''O''), (3, ''P'')] ''Jan'' 2024
      in \<lfloor>totalPresent r + totalOff r + totalSundays r + totalHolidays r + totalNightShift r
           + 2 * totalHolyDayWorking r + (1 / 2) * totalOffDayWorking r\<rfloor> = 2)"
proof -
  have r: "calculateSummaries [(1, ''HD''), (2, ''O''), (3, ''P'')] ''Jan'' 2024 =
     \<lparr>totalPresent = 1, totalOff = 1, totalSundays = 0, totalHolidays = 0,
      totalNightShift = 0, totalHolyDayWorking = 0, totalOffDayWorking = 1,
      totalAbsent = 0, totalOnLeave = 0, totalWorkingDays = 3\<rparr>"
    by code_simp
  have u: "present_unfloored [(1, ''HD''), (2, ''O''), (3, ''P'')] [1..getDaysInMonth ''Jan'' 2024] = 3 / 2"
    by code_simp
  from calculateSummaries_totalWorkingDays [of "[(1, ''HD''), (2, ''O''), (3, ''P'')]" "''Jan''" 2024]
  show ?thesis unfolding Let_def r u by (simp add: floor_eq_iff)
qed

lemma upto_filter_gt1:
  "filter (\<lambda>d. d > 1 \<and> P d) [1..n] = filter P [2..n]"
proof (cases "1 \<le> n")
  case True
  then have "[1..n] = 1 # [2..n]" by (simp add: upto_rec1)
  moreover have "filter (\<lambda>d. d > 1 \<and> P d) [2..n] = filter P [2..n]"
    by (rule filter_cong) auto
  ultimately show ?thesis by simp
next
  case False
  then show ?thesis by simp
qed

text \<open>
  C2. In the second pass over the days 1 to \<open>daysInMonth\<close>,
  \<open>totalHolyDayWorking\<close> counts exactly the days that are a Sunday or a listed
  holiday and carry one of the codes P, N, WFH; \<open>totalOffDayWorking\<close> counts exactly
  the days after day 1 whose previous day is coded O and that carry one of P, N, WFH;
  the step for one day increments each counter by one under exactly these conditions,
  and day 1 never increments \<open>totalOffDayWorking\<close>. Codes are compared upper-cased,
  as the loop does.
\<close>

theorem calculateSummaries_second_pass:
  "let r = calculateSummaries att mon yr;
       daysInMonth = getDaysInMonth mon yr;
       sundays = getSundaysInMonth mon yr;
       holidays = getHolidaysInMonth mon yr
   in totalHolyDayWorking r =
        of_nat (length (filter (\<lambda>day. (day \<in> set sundays \<or> day \<in> set holidays)
                                       \<and> working (code_at att day)) [1..daysInMonth]))
      \<and> totalOffDayWorking r =
        of_nat (length (filter (\<lambda>day. day > 1 \<and> code_at att (day - 1) = ''O''
                                       \<and> working (code_at att day)) [1..daysInMonth]))
      \<and> totalOffDayWorking r =
        of_nat (length (filter (\<lambda>day. code_at att (day - 1) = ''O''
                                       \<and> working (code_at att day)) [2..daysInMonth]))
      \<and> totalHolyDayWorking (second_pass_step att sundays holidays d s) =
        totalHolyDayWorking s
          + (if (d \<in> set sundays \<or> d \<in> set holidays) \<and> working (code_at att d) then 1 else 0)
      \<and> totalOffDayWorking (second_pass_step att sundays holidays d s) =
        totalOffDayWorking s
          + (if d > 1 \<and> code_at att (d - 1) = ''O'' \<and> working (code_at att d) then 1 else 0)
      \<and> totalOffDayWorking (second_pass_step att sundays holidays 1 s) = totalOffDayWorking s"
  unfolding Let_def
  by (simp add: calculateSummaries_fields second_pass_step_counters upto_filter_gt1)

theorem calculateSummaries_second_pass_witness:
  "totalHolyDayWorking
     (calculateSummaries [(0, ''O''), (1, ''P''), (6, ''O''), (7, ''P'')] ''Jan'' 2024) = 2
   \<and> totalOffDayWorking
     (calculateSummaries [(0, ''O''), (1, ''P''), (6, ''O''), (7, ''P'')] ''Jan'' 2024) = 1"
proof -
  have r: "calculateSummaries [(0, ''O''), (1, ''P''), (6, ''O''), (7, ''P'')] ''Jan'' 2024 =
     \<lparr>totalPresent = 2, totalOff = 1, totalSundays = 0, totalHolidays = 0,
      totalNightShift = 0, totalHolyDayWorking = 2, totalOffDayWorking = 1,
      totalAbsent = 0, totalOnLeave = 0, totalWorkingDays = 7\<rparr>"
    by code_simp
  from calculateSummaries_second_pass
         [of "[(0, ''O''), (1, ''P''), (6, ''O''), (7, ''P'')]" "''Jan''" 2024]
  show ?thesis unfolding Let_def r by simp
qed

lemma working_recognized: "working (recognized_code att d) = working (code_at att d)"
  by (auto simp: recognized_code_def Let_def working_def ATTENDANCE_CODES_def)

lemma recognized_code_eq:
  assumes "c \<in> set ATTENDANCE_CODES"
  shows "(recognized_code att d = c) = (code_at att d = c)"
proof (cases "code_at att d \<in> set ATTENDANCE_CODES")
  case True
  then show ?thesis by (simp add: recognized_code_def)
next
  case False
  with assms have "code_at att d \<noteq> c" "c \<noteq> []"
    by (auto simp: ATTENDANCE_CODES_def)
  with False show ?thesis by (auto simp: recognized_code_def)
qed

lemma recognized_code_eqs:
  "(code_at att d = ''P'') = (recognized_code att d = ''P'')"
  "(code_at att d = ''A'') = (recognized_code att d = ''A'')"
  "(code_at att d = ''O'') = (recognized_code att d = ''O'')"
  "(code_at att d = ''S'') = (recognized_code att d = ''S'')"
  "(code_at att d = ''H'') = (recognized_code att d = ''H'')"
  "(code_at att d = ''N'') = (recognized_code att d = ''N'')"
  "(code_at att d = ''L'') = (recognized_code att d = ''L'')"
  "(code_at att d = ''WFH'') = (recognized_code att d = ''WFH'')"
  "(code_at att d = ''HD'') = (recognized_code att d = ''HD'')"
  by (simp_all add: recognized_code_eq ATTENDANCE_CODES_def)

lemma first_pass_step_cong:
  assumes "recognized_code a d = recognized_code b d"
  shows "first_pass_step a d s = first_pass_step b d s"
  unfolding first_pass_step_code Let_def recognized_code_eqs assms ..

lemma second_pass_step_cong:
  assumes "recognized_code a d = recognized_code b d"
    and "1 < d \<Longrightarrow> recognized_code a (d - 1) = recognized_code b (d - 1)"
  shows "second_pass_step a sundays holidays d s = second_pass_step b sundays holidays d s"
proof (cases "1 < d")
  case True
  with assms(2) have "recognized_code a (d - 1) = recognized_code b (d - 1)" by simp
  then show ?thesis
    unfolding second_pass_step_code Let_def recognized_code_eqs working_recognized [symmetric] assms(1)
    by simp
next
  case False
  then show ?thesis
    unfolding second_pass_step_code Let_def working_recognized [symmetric] assms(1)
    by simp
qed

lemma calculateSummaries_cong:
  assumes "\<And>d. 1 \<le> d \<Longrightarrow> d \<le> getDaysInMonth mon yr \<Longrightarrow> recognized_code a d = recognized_code b d"
  shows "calculateSummaries a mon yr = calculateSummaries b mon yr"
proof -
  let ?ds = "[1..getDaysInMonth mon yr]"
  have 1: "fold (first_pass_step a) ?ds s = fold (first_pass_step b) ?ds s" for s
    by (rule fold_cong) (auto intro: first_pass_step_cong assms)
  have 2: "fold (second_pass_step a su ho) ?ds s = fold (second_pass_step b su ho) ?ds s" for s su ho
  proof (rule fold_cong)
    fix d assume "d \<in> set ?ds"
    then have d: "1 \<le> d" "d \<le> getDaysInMonth mon yr" by auto
    show "second_pass_step a su ho d = second_pass_step b su ho d"
    proof
      fix s
      show "second_pass_step a su ho d s = second_pass_step b su ho d s"
        using d by (intro second_pass_step_cong assms) auto
    qed
  qed simp_all
  show ?thesis
    unfolding calculateSummaries_def Let_def 1 2 ..
qed

lemma calculateSummaries_empty: "calculateSummaries [] mon yr = DEFAULT_summaries"
proof -
  have 1: "fold (first_pass_step []) ds s = s" for ds s
    by (induction ds arbitrary: s) (simp_all add: first_pass_step_def)
  have 2: "fold (second_pass_step [] su ho) ds s = s" for ds s su ho
    by (induction ds arbitrary: s) (simp_all add: second_pass_step_def)
  show ?thesis
    unfolding calculateSummaries_def Let_def 1 2
    by (simp add: DEFAULT_summaries_def)
qed

lemma second_pass_step_raising_Array:
  "second_pass_step_raising att sundays (Array days) day s =
     Inr (second_pass_step att sundays days day s)"
proof (cases "map_of att day")
  case None
  then show ?thesis by (simp add: second_pass_step_raising_def second_pass_step_def)
next
  case (Some code)
  show ?thesis
  proof (cases "code = []")
    case True
    with Some show ?thesis by (simp add: second_pass_step_raising_def second_pass_step_def)
  next
    case False
    show ?thesis
    proof (cases "day \<in> set sundays")
      case True
      with Some False show ?thesis
        by (simp add: second_pass_step_raising_def second_pass_step_def Let_def)
    next
      case notsun: False
      with Some False show ?thesis
        by (simp add: second_pass_step_raising_def second_pass_step_def holidays_includes_def Let_def)
    qed
  qed
qed

lemma second_pass_raising_Array:
  "second_pass_raising att sundays (Array days) ds s =
     Inr (fold (second_pass_step att sundays days) ds s)"
  by (induction ds arbitrary: s) (simp_all add: second_pass_step_raising_Array)

text \<open>
  For every month name that is not inherited from \<open>Object.prototype\<close> the call
  returns, and what it returns is \<open>calculateSummaries\<close>: the properties of
  \<open>calculateSummaries\<close> are properties of the program wherever it returns.
\<close>

lemma calculateSummaries_raising_returns:
  assumes "mon \<notin> set Object_prototype_names"
  shows "calculateSummaries_raising att mon yr = Inr (calculateSummaries att mon yr)"
proof -
  from assms have "getHolidaysInMonth_value mon yr = Array (getHolidaysInMonth mon yr)"
    by (simp add: getHolidaysInMonth_value_def)
  then show ?thesis
    unfolding calculateSummaries_raising_def calculateSummaries_def Let_def
    by (simp add: second_pass_raising_Array)
qed

text \<open>
  There the summary depends only on the recognized codes of the days 1 to
  \<open>daysInMonth\<close>: an unrecognized code counts like no entry and keys outside that
  range are ignored.
\<close>

lemma calculateSummaries_raising_recognized:
  assumes "mon \<notin> set Object_prototype_names"
    and "\<And>d. 1 \<le> d \<Longrightarrow> d \<le> getDaysInMonth mon yr \<Longrightarrow> recognized_code a d = recognized_code b d"
  shows "calculateSummaries_raising a mon yr = calculateSummaries_raising b mon yr"
  using calculateSummaries_cong [of mon yr a b] assms
  by (simp add: calculateSummaries_raising_returns)

text \<open>The empty mapping yields the all-zero summary for every month name.\<close>

lemma second_pass_raising_empty: "second_pass_raising [] sundays holidays ds s = Inr s"
  by (induction ds arbitrary: s) (simp_all add: second_pass_step_raising_def)

lemma calculateSummaries_raising_empty:
  "calculateSummaries_raising [] mon yr = Inr DEFAULT_summaries"
proof -
  have 1: "fold (first_pass_step []) ds s = s" for ds s
    by (induction ds arbitrary: s) (simp_all add: first_pass_step_def)
  show ?thesis
    unfolding calculateSummaries_raising_def Let_def 1 second_pass_raising_empty
    by (simp add: DEFAULT_summaries_def)
qed

text \<open>
  C3 at a concrete input. For the month name \<open>constructor\<close> the month has 31 days by
  the fallback of \<open>getDaysInMonth\<close>, \<open>getHolidaysInMonth\<close> returns the inherited
  function instead of an array, and on the mapping \<open>{2: 'XYZ'}\<close>, whose one code is
  unrecognized, \<open>calculateSummaries\<close> raises a \<open>TypeError\<close> at
  \<open>holidays.includes(2)\<close>, day 2 not being a Sunday. The empty mapping still yields
  the all-zero summary.
\<close>

theorem calculateSummaries_raises_on_inherited_month:
  "calculateSummaries_raising [(2, ''XYZ'')] ''constructor'' 2024 = Inl TypeError
   \<and> getHolidaysInMonth_value ''constructor'' 2024 = Inherited
   \<and> getDaysInMonth ''constructor'' 2024 = 31
   \<and> calculateSummaries_raising [] ''constructor'' 2024 = Inr DEFAULT_summaries"
proof -
  have 1: "calculateSummaries_raising [(2, ''XYZ'')] ''constructor'' 2024 = Inl TypeError"
    by code_simp
  have 2: "getHolidaysInMonth_value ''constructor'' 2024 = Inherited"
    by (simp add: getHolidaysInMonth_value_def Object_prototype_names_def)
  have 3: "getDaysInMonth ''constructor'' 2024 = 31"
    by (simp add: getDaysInMonth_def MONTHS_def)
  from 1 2 3 show ?thesis
    by (simp add: calculateSummaries_raising_empty)
qed

subsection \<open>Record mutators\<close>

lemma objects_set_prop:
  "map_of (objects (set_prop h r day v) r) d = (if d = day then Some v else map_of (objects h r) d)"
  by (simp add: set_prop_def update_conv')

lemma objects_delete_prop:
  "map_of (objects (delete_prop h r day) r) d = (if d = day then None else map_of (objects h r) d)"
  by (simp add: delete_prop_def delete_conv')

lemma normalizeAttendanceCode_nonempty:
  assumes "normalizeAttendanceCode code \<noteq> []"
  shows "code \<noteq> []" and "normalizeAttendanceCode code = toUpperCase code"
  using assms by (auto simp: normalizeAttendanceCode_def Let_def split: if_splits)

text \<open>
  C7, as the code has it. \<open>updateEmployeeAttendance\<close> upper-cases the supplied code
  before storing it and does not look it up in the registry: after the call the
  day's entry is the upper-cased code, or absent when the supplied code is empty; it
  is the normalized code whenever the supplied code is one the registry recognizes.
  The summary of the returned record is \<open>calculateSummaries\<close> of the returned
  attendance.
\<close>

theorem updateEmployeeAttendance_stores_upper_case:
  "case updateEmployeeAttendance h e day code mon yr of
     (h', e') \<Rightarrow>
       let att' = objects h' (attendance e')
       in map_of att' day = (if code = [] then None else Some (toUpperCase code))
          \<and> (normalizeAttendanceCode code \<noteq> [] \<longrightarrow>
                map_of att' day = Some (normalizeAttendanceCode code))
          \<and> summaries e' = calculateSummaries att' mon yr"
proof (cases "code = []")
  case True
  then have "normalizeAttendanceCode code = []"
    by (simp add: normalizeAttendanceCode_def)
  with True show ?thesis
    by (simp add: updateEmployeeAttendance_def Let_def objects_delete_prop)
next
  case False
  then have "normalizeAttendanceCode code \<noteq> [] \<longrightarrow> normalizeAttendanceCode code = toUpperCase code"
    using normalizeAttendanceCode_nonempty(2) by blast
  with False show ?thesis
    by (simp add: updateEmployeeAttendance_def Let_def objects_set_prop)
qed

theorem updateEmployeeAttendance_stores_upper_case_witness:
  "map_of (objects (fst (updateEmployeeAttendance heap0 employee0 1 ''wfh'' ''Jan'' 2024))
                   (attendance (snd (updateEmployeeAttendance heap0 employee0 1 ''wfh'' ''Jan'' 2024)))) 1
     = Some ''WFH''
   \<and> totalPresent (summaries (snd (updateEmployeeAttendance heap0 employee0 1 ''wfh'' ''Jan'' 2024))) = 1"
proof -
  obtain h' e' where r: "updateEmployeeAttendance heap0 employee0 1 ''wfh'' ''Jan'' 2024 = (h', e')"
    by (cases "updateEmployeeAttendance heap0 employee0 1 ''wfh'' ''Jan'' 2024")
  have up: "toUpperCase ''wfh'' = ''WFH''"
    by (simp add: toUpperCase_def upper_char_def)
  from r have att: "objects h' (attendance e') = [(2, ''A''), (1, ''WFH'')]"
    by (auto simp: updateEmployeeAttendance_def employee0_def heap0_def set_prop_def up)
  have s: "totalPresent (calculateSummaries [(2, ''A''), (1, ''WFH'')] ''Jan'' 2024) = 1"
    by code_simp
  from updateEmployeeAttendance_stores_upper_case
         [where h = heap0 and e = employee0 and day = 1 and code = "''wfh''" and mon = "''Jan''"
            and yr = 2024]
  show ?thesis
    by (simp add: r att s up)
qed

text \<open>
  C7 as stated fails for a code outside the registry: \<open>x\<close> normalizes to the empty
  string, and the edit stores \<open>X\<close>.
\<close>

theorem updateEmployeeAttendance_unrecognized_counterexample:
  "map_of (objects (fst (updateEmployeeAttendance heap0 employee0 1 ''x'' ''Jan'' 2024))
                   (attendance (snd (updateEmployeeAttendance heap0 employee0 1 ''x'' ''Jan'' 2024)))) 1
     = Some ''X''
   \<and> normalizeAttendanceCode ''x'' = []"
  by (simp add: updateEmployeeAttendance_def employee0_def heap0_def set_prop_def
      normalizeAttendanceCode_def ATTENDANCE_CODES_def toUpperCase_def upper_char_def)

lemma objects_fill_day:
  "map_of (objects (fill_day r code d h) r) day =
     (if day = d \<and> falsy (map_of (objects h r) day) then Some code else map_of (objects h r) day)"
  by (auto simp: fill_day_def objects_set_prop)

lemma objects_fold_fill_day:
  "map_of (objects (fold (fill_day r code) ds h) r) day =
     (if day \<in> set ds \<and> falsy (map_of (objects h r) day) then Some code
      else map_of (objects h r) day)"
proof (induction ds arbitrary: h)
  case Nil
  show ?case by simp
next
  case (Cons d ds)
  have "map_of (objects (fold (fill_day r code) (d # ds) h) r) day =
          (if day \<in> set ds \<and> falsy (map_of (objects (fill_day r code d h) r) day) then Some code
           else map_of (objects (fill_day r code d h) r) day)"
    by (simp add: Cons.IH)
  also have "\<dots> = (if day \<in> set (d # ds) \<and> falsy (map_of (objects h r) day) then Some code
                     else map_of (objects h r) day)"
    unfolding objects_fill_day
    by (cases "falsy (map_of (objects h r) day)"; cases "day = d"; simp)
  finally show ?case .
qed

lemma falsy_iff: "falsy v \<longleftrightarrow> v = None \<or> v = Some []"
  by (cases v) (simp_all add: falsy_def)

lemma sundays_Jan_2024: "getSundaysInMonth ''Jan'' 2024 = [7, 14, 21, 28]"
  by code_simp

lemma holidays_Jan: "getHolidaysInMonth ''Jan'' yr = [1, 26]"
  by (simp add: getHolidaysInMonth_def)

text \<open>
  C8, as the code has it. \<open>markWeekends\<close> gives the fill code to exactly the Sundays
  whose entry is absent or the empty string, and \<open>markHolidays\<close> to exactly such
  listed holidays; every other day, and so every day with a non-empty code, keeps
  its entry. The summary of the returned record is \<open>calculateSummaries\<close> of the
  resulting attendance.
\<close>

theorem mark_fills_only_empty_days:
  "(case markWeekends h e mon yr code of
      (h', e') \<Rightarrow>
        let old = objects h (attendance e); new = objects h' (attendance e')
        in (\<forall>day. map_of new day =
                    (if day \<in> set (getSundaysInMonth mon yr)
                        \<and> (map_of old day = None \<or> map_of old day = Some [])
                     then Some code else map_of old day))
           \<and> summaries e' = calculateSummaries new mon yr)
   \<and> (case markHolidays h e mon yr code of
      (h', e') \<Rightarrow>
        let old = objects h (attendance e); new = objects h' (attendance e')
        in (\<forall>day. map_of new day =
                    (if day \<in> set (getHolidaysInMonth mon yr)
                        \<and> (map_of old day = None \<or> map_of old day = Some [])
                     then Some code else map_of old day))
           \<and> summaries e' = calculateSummaries new mon yr)"
  unfolding markWeekends_def markHolidays_def Let_def prod.case
  by (simp add: objects_fold_fill_day falsy_iff)

theorem mark_fills_only_empty_days_witness:
  "map_of (objects (fst (markWeekends (set_prop heap0 0 7 ''P'') employee0 ''Jan'' 2024 ''S''))
                   (attendance employee0)) 7 = Some ''P''
   \<and> map_of (objects (fst (markWeekends (set_prop heap0 0 7 ''P'') employee0 ''Jan'' 2024 ''S''))
                   (attendance employee0)) 14 = Some ''S''
   \<and> map_of (objects (fst (markHolidays (set_prop heap0 0 7 ''P'') employee0 ''Jan'' 2024 ''H''))
                   (attendance employee0)) 26 = Some ''H''"
proof -
  let ?h = "set_prop heap0 0 7 ''P''"
  obtain h1 e1 where w: "markWeekends ?h employee0 ''Jan'' 2024 ''S'' = (h1, e1)"
    by (cases "markWeekends ?h employee0 ''Jan'' 2024 ''S''")
  obtain h2 e2 where m: "markHolidays ?h employee0 ''Jan'' 2024 ''H'' = (h2, e2)"
    by (cases "markHolidays ?h employee0 ''Jan'' 2024 ''H''")
  from w have e1: "attendance e1 = 0"
    by (auto simp: markWeekends_def employee0_def Let_def)
  from m have e2: "attendance e2 = 0"
    by (auto simp: markHolidays_def employee0_def Let_def)
  have e0: "attendance employee0 = 0"
    by (simp add: employee0_def)
  have old: "objects ?h 0 = [(2, ''A''), (7, ''P'')]"
    by (simp add: set_prop_def heap0_def)
  have hol: "getHolidaysInMonth ''Jan'' 2024 = [1, 26]"
    by (simp add: getHolidaysInMonth_def)
  from mark_fills_only_empty_days
         [where h = ?h and e = employee0 and mon = "''Jan''" and yr = 2024 and code = "''S''"]
  have 1: "map_of (objects h1 0) day =
             (if day \<in> set [7, 14, 21, 28]
                 \<and> (map_of [(2, ''A''), (7, ''P'')] day = None \<or> map_of [(2, ''A''), (7, ''P'')] day = Some [])
              then Some ''S'' else map_of [(2, ''A''), (7, ''P'')] day)" for day
    by (simp add: w e1 e0 old Let_def sundays_Jan_2024)
  from mark_fills_only_empty_days
         [where h = ?h and e = employee0 and mon = "''Jan''" and yr = 2024 and code = "''H''"]
  have 2: "map_of (objects h2 0) day =
             (if day \<in> set [1, 26]
                 \<and> (map_of [(2, ''A''), (7, ''P'')] day = None \<or> map_of [(2, ''A''), (7, ''P'')] day = Some [])
              then Some ''H'' else map_of [(2, ''A''), (7, ''P'')] day)" for day
    by (simp add: m e2 e0 old Let_def hol)
  show ?thesis
    by (simp add: w m e0 1 2)
qed

text \<open>
  C8 as stated fails for a Sunday whose entry exists and is the empty string, as the
  import leaves it for an unrecognized cell: the key is there, and \<open>markWeekends\<close>
  overwrites it.
\<close>

theorem markWeekends_empty_entry_counterexample:
  "map_of (objects (set_prop heap0 0 7 []) (attendance employee0)) 7 = Some []
   \<and> 7 \<in> set (Object_keys (objects (set_prop heap0 0 7 []) (attendance employee0)))
   \<and> map_of (objects (fst (markWeekends (set_prop heap0 0 7 []) employee0 ''Jan'' 2024 ''S''))
                     (attendance employee0)) 7 = Some ''S''"
  by (simp add: markWeekends_def sundays_Jan_2024 fill_day_def falsy_def set_prop_def heap0_def
      employee0_def Object_keys_def)

text \<open>
  C6 at a concrete input. The employee's attendance object is \<open>{2: 'A'}\<close>. After
  each of \<open>updateEmployeeAttendance\<close>, \<open>bulkUpdateAttendance\<close>, \<open>markWeekends\<close> and
  \<open>markHolidays\<close> the attendance of the input record, read through its own
  reference, has changed; only \<open>clearAttendance\<close> leaves it as it was.
\<close>

theorem mutators_write_input_attendance:
  "objects heap0 (attendance employee0) = [(2, ''A'')]
   \<and> objects (fst (updateEmployeeAttendance heap0 employee0 1 ''P'' ''Jan'' 2024)) (attendance employee0)
       = [(2, ''A''), (1, ''P'')]
   \<and> objects (fst (bulkUpdateAttendance heap0 employee0 [(1, ''P'')] ''Jan'' 2024)) (attendance employee0)
       = [(2, ''A''), (1, ''P'')]
   \<and> objects (fst (markWeekends heap0 employee0 ''Jan'' 2024 ''S'')) (attendance employee0)
       = [(2, ''A''), (7, ''S''), (14, ''S''), (21, ''S''), (28, ''S'')]
   \<and> objects (fst (markHolidays heap0 employee0 ''Jan'' 2024 ''H'')) (attendance employee0)
       = [(2, ''A''), (1, ''H''), (26, ''H'')]
   \<and> objects (fst (clearAttendance heap0 employee0)) (attendance employee0) = [(2, ''A'')]"
proof -
  have up: "toUpperCase ''P'' = ''P''"
    by (simp add: toUpperCase_def upper_char_def)
  have 0: "objects heap0 (attendance employee0) = [(2, ''A'')]"
    by (simp add: heap0_def employee0_def)
  have 1: "objects (fst (updateEmployeeAttendance heap0 employee0 1 ''P'' ''Jan'' 2024)) (attendance employee0)
       = [(2, ''A''), (1, ''P'')]"
    by (simp add: updateEmployeeAttendance_def set_prop_def heap0_def employee0_def up)
  have 2: "objects (fst (bulkUpdateAttendance heap0 employee0 [(1, ''P'')] ''Jan'' 2024)) (attendance employee0)
       = [(2, ''A''), (1, ''P'')]"
    by (simp add: bulkUpdateAttendance_def set_prop_def heap0_def employee0_def up)
  have 3: "objects (fst (markWeekends heap0 employee0 ''Jan'' 2024 ''S'')) (attendance employee0)
       = [(2, ''A''), (7, ''S''), (14, ''S''), (21, ''S''), (28, ''S'')]"
    by (simp add: markWeekends_def sundays_Jan_2024 fill_day_def falsy_def set_prop_def heap0_def
        employee0_def)
  have 4: "objects (fst (markHolidays heap0 employee0 ''Jan'' 2024 ''H'')) (attendance employee0)
       = [(2, ''A''), (1, ''H''), (26, ''H'')]"
    by (simp add: markHolidays_def holidays_Jan fill_day_def falsy_def set_prop_def heap0_def
        employee0_def)
  have 5: "objects (fst (clearAttendance heap0 employee0)) (attendance employee0) = [(2, ''A'')]"
    by (simp add: clearAttendance_def new_object_def heap0_def employee0_def)
  from 0 1 2 3 4 5 show ?thesis by blast
qed

lemma clearAttendance_frame:
  "r \<noteq> next_ref h \<Longrightarrow> objects (fst (clearAttendance h e)) r = objects h r"
  by (simp add: clearAttendance_def new_object_def)

subsection \<open>Consecutive absences\<close>

lemma absent_code_at:
  "(map_option toUpperCase (map_of att d) = Some ''A'') = (code_at att d = ''A'')"
  by (cases "map_of att d") (auto simp: code_at_def)

lemma absence_step_code:
  "absence_step att day rest st =
     (if code_at att day = ''A''
      then let st1 = st\<lparr>currentConsecutive := currentConsecutive st + 1\<rparr>
           in if (case rest of [] \<Rightarrow> True | next_day # _ \<Rightarrow> code_at att next_day \<noteq> ''A'')
              then if currentConsecutive st1 > 0
                   then st1\<lparr>instances := instances st1 @
                                [\<lparr>start = day - currentConsecutive st1 + 1, end_day = day,
                                  count = currentConsecutive st1\<rparr>],
                             maxConsecutive := max (maxConsecutive st1) (currentConsecutive st1),
                             totalInstances := totalInstances st1 + 1,
                             currentConsecutive := 0\<rparr>
                   else st1
              else st1
      else st\<lparr>currentConsecutive := 0\<rparr>)"
  unfolding absence_step_def absent_code_at ..

lemma absence_step_absent_open:
  assumes "code_at att day = ''A''" "code_at att next_day = ''A''"
  shows "absence_step att day (next_day # rest) st =
           st\<lparr>currentConsecutive := currentConsecutive st + 1\<rparr>"
  using assms by (simp add: absence_step_code)

lemma absence_step_absent_close:
  assumes "code_at att day = ''A''" "rest = [] \<or> code_at att (hd rest) \<noteq> ''A''"
    and "0 \<le> currentConsecutive st"
  shows "absence_step att day rest st =
           st\<lparr>currentConsecutive := 0,
              instances := instances st @
                [\<lparr>start = day - (currentConsecutive st + 1) + 1, end_day = day,
                  count = currentConsecutive st + 1\<rparr>],
              maxConsecutive := max (maxConsecutive st) (currentConsecutive st + 1),
              totalInstances := totalInstances st + 1\<rparr>"
proof (cases rest)
  case Nil
  with assms show ?thesis by (simp add: absence_step_code)
next
  case (Cons n ns)
  with assms show ?thesis by (simp add: absence_step_code)
qed

lemma absence_step_not_absent:
  assumes "code_at att day \<noteq> ''A''"
  shows "absence_step att day rest st = st\<lparr>currentConsecutive := 0\<rparr>"
  using assms by (simp add: absence_step_code)

lemma scan_run:
  assumes "\<forall>d\<in>set pre. code_at att d = ''A''" "pre \<noteq> []"
    and "post = [] \<or> code_at att (hd post) \<noteq> ''A''"
    and "0 \<le> currentConsecutive st"
  shows "scan_days att (pre @ post) st =
           scan_days att post
             (st\<lparr>currentConsecutive := 0,
                 instances := instances st @
                   [\<lparr>start = last pre - (currentConsecutive st + int (length pre)) + 1,
                     end_day = last pre,
                     count = currentConsecutive st + int (length pre)\<rparr>],
                 maxConsecutive := max (maxConsecutive st) (currentConsecutive st + int (length pre)),
                 totalInstances := totalInstances st + 1\<rparr>)"
  using assms
proof (induction pre arbitrary: st)
  case Nil
  then show ?case by simp
next
  case (Cons d pre)
  show ?case
  proof (cases pre)
    case Nil
    with Cons.prems show ?thesis
      by (simp add: absence_step_absent_close)
  next
    case (Cons d' pre')
    let ?st1 = "st\<lparr>currentConsecutive := currentConsecutive st + 1\<rparr>"
    from Cons Cons.prems have step: "absence_step att d (pre @ post) st = ?st1"
      by (simp add: absence_step_absent_open)
    have l: "last (d # pre) = last pre"
      using Cons by simp
    have n: "currentConsecutive st + int (length (d # pre)) =
               currentConsecutive st + 1 + int (length pre)"
      by simp
    have "scan_days att ((d # pre) @ post) st = scan_days att (pre @ post) ?st1"
      by (simp add: step)
    also have "\<dots> = scan_days att post
             (?st1\<lparr>currentConsecutive := 0,
                 instances := instances ?st1 @
                   [\<lparr>start = last pre - (currentConsecutive ?st1 + int (length pre)) + 1,
                     end_day = last pre,
                     count = currentConsecutive ?st1 + int (length pre)\<rparr>],
                 maxConsecutive := max (maxConsecutive ?st1) (currentConsecutive ?st1 + int (length pre)),
                 totalInstances := totalInstances ?st1 + 1\<rparr>)"
      using Cons.prems Cons by (intro Cons.IH) simp_all
    finally show ?thesis
      unfolding l n by simp
  qed
qed

lemma scan_days_runs_gen:
  assumes "currentConsecutive st = 0" "\<And>d. absent d = (code_at att d = ''A'')"
  shows "scan_days att ds st =
           st\<lparr>instances := instances st @ map instance_of_run (absence_runs absent ds),
              totalInstances := totalInstances st + int (length (absence_runs absent ds)),
              maxConsecutive :=
                  fold max (map (\<lambda>run. int (length run)) (absence_runs absent ds))
                    (maxConsecutive st)\<rparr>"
  using assms
proof (induction absent ds arbitrary: st rule: absence_runs.induct)
  case (1 absent)
  then show ?case by simp
next
  case (2 absent d ds)
  note A = "2.prems"(2)
  show ?case
  proof (cases "absent d")
    case True
    let ?pre = "d # takeWhile absent ds" and ?post = "dropWhile absent ds"
    have split: "d # ds = ?pre @ ?post" by simp
    have pre: "\<forall>x\<in>set ?pre. code_at att x = ''A''"
      using True A by (auto dest: set_takeWhileD)
    have post: "?post = [] \<or> code_at att (hd ?post) \<noteq> ''A''"
      using hd_dropWhile [of absent ds] A by blast
    let ?st' = "st\<lparr>currentConsecutive := 0,
                 instances := instances st @ [instance_of_run ?pre],
                 maxConsecutive := max (maxConsecutive st) (int (length ?pre)),
                 totalInstances := totalInstances st + 1\<rparr>"
    have "scan_days att (?pre @ ?post) st = scan_days att ?post ?st'"
      using scan_run [OF pre _ post, of st] "2.prems"(1)
      by (simp add: instance_of_run_def)
    also have "\<dots> = ?st'\<lparr>instances := instances ?st' @ map instance_of_run (absence_runs absent ?post),
              totalInstances := totalInstances ?st' + int (length (absence_runs absent ?post)),
              maxConsecutive :=
                  fold max (map (\<lambda>run. int (length run)) (absence_runs absent ?post))
                    (maxConsecutive ?st')\<rparr>"
      by (rule "2.IH"(1) [OF True _ A]) simp
    finally have "scan_days att (d # ds) st = ?st'\<lparr>instances := instances ?st' @ map instance_of_run (absence_runs absent ?post),
              totalInstances := totalInstances ?st' + int (length (absence_runs absent ?post)),
              maxConsecutive :=
                  fold max (map (\<lambda>run. int (length run)) (absence_runs absent ?post))
                    (maxConsecutive ?st')\<rparr>"
      unfolding split [symmetric] .
    then show ?thesis
      using True "2.prems"(1) by (simp add: max.commute)
  next
    case False
    have same: "st\<lparr>currentConsecutive := 0\<rparr> = st"
      using "2.prems"(1) by (cases st) simp
    have "scan_days att (d # ds) st = scan_days att ds st"
      using False A by (simp add: absence_step_not_absent same)
    with "2.IH"(2) [OF False "2.prems"(1) A] False show ?thesis by simp
  qed
qed

lemma fold_max_Max: "fold max xs (m::int) = Max (set (m # xs))"
  by (rule Max.set_eq_fold [symmetric])

lemma calculateConsecutiveAbsences_eq:
  "calculateConsecutiveAbsences att =
     \<lparr>maxConsecutive =
        Max (set (0 # map (\<lambda>run. int (length run))
               (absence_runs (\<lambda>day. code_at att day = ''A'') (sort (Object_keys att))))),
      currentConsecutive = 0,
      totalInstances =
        int (length (absence_runs (\<lambda>day. code_at att day = ''A'') (sort (Object_keys att)))),
      instances =
        map instance_of_run
          (absence_runs (\<lambda>day. code_at att day = ''A'') (sort (Object_keys att)))\<rparr>"
  unfolding calculateConsecutiveAbsences_def Let_def
  by (subst scan_days_runs_gen [where absent = "\<lambda>day. code_at att day = ''A''"])
     (simp_all add: fold_max_Max)

lemma instance_of_run_start:
  "start (instance_of_run run) = end_day (instance_of_run run) - count (instance_of_run run) + 1"
  by (simp add: instance_of_run_def)

lemma runs_adjacent:
  assumes "absent d1" "absent d2"
  shows "\<exists>run\<in>set (absence_runs absent (xs @ d1 # d2 # ys)). d1 \<in> set run \<and> d2 \<in> set run"
proof (induction xs rule: length_induct)
  case (1 xs)
  show ?case
  proof (cases xs)
    case Nil
    with assms show ?thesis by simp
  next
    case (Cons x xs')
    show ?thesis
    proof (cases "absent x")
      case False
      have "length xs' < length xs" using Cons by simp
      with 1 have "\<exists>run\<in>set (absence_runs absent (xs' @ d1 # d2 # ys)). d1 \<in> set run \<and> d2 \<in> set run"
        by blast
      with Cons False show ?thesis by simp
    next
      case True
      show ?thesis
      proof (cases "\<forall>z\<in>set xs'. absent z")
        case all: True
        then have "takeWhile absent (xs' @ d1 # d2 # ys) = xs' @ d1 # d2 # takeWhile absent ys"
          using assms by (simp add: takeWhile_append2)
        with Cons True show ?thesis by simp
      next
        case False
        then have dw: "dropWhile absent (xs' @ d1 # d2 # ys) = dropWhile absent xs' @ d1 # d2 # ys"
          by (auto simp: dropWhile_append1)
        have "length (dropWhile absent xs') < length xs"
          using Cons length_dropWhile_le [of absent xs'] by simp
        with 1 have "\<exists>run\<in>set (absence_runs absent (dropWhile absent xs' @ d1 # d2 # ys)).
                       d1 \<in> set run \<and> d2 \<in> set run"
          by blast
        with Cons True dw show ?thesis by simp
      qed
    qed
  qed
qed

lemma adjacent_in_sorted:
  fixes ds :: "int list"
  assumes "sorted ds" "distinct ds" "d1 \<in> set ds" "d2 \<in> set ds" "d1 < d2"
    and "\<forall>k\<in>set ds. \<not> (d1 < k \<and> k < d2)"
  shows "\<exists>xs ys. ds = xs @ d1 # d2 # ys"
proof -
  from assms(3) obtain xs zs where ds: "ds = xs @ d1 # zs"
    by (auto dest: split_list)
  from assms(1) ds have le: "\<forall>x\<in>set xs. x \<le> d1" and ge: "\<forall>z\<in>set zs. d1 \<le> z" and szs: "sorted zs"
    by (auto simp: sorted_append)
  from assms(2) ds have "d1 \<notin> set zs" by auto
  with ge have gt: "\<forall>z\<in>set zs. d1 < z"
    by (auto simp: order.strict_iff_order)
  from le assms(5) have "d2 \<notin> set xs" by force
  with assms(4,5) ds have "d2 \<in> set zs" by auto
  then obtain z zs' where zs: "zs = z # zs'" by (cases zs) auto
  from gt zs have "d1 < z" by simp
  moreover from szs zs \<open>d2 \<in> set zs\<close> have "z \<le> d2" by auto
  moreover from ds zs have "z \<in> set ds" by simp
  ultimately have "z = d2" using assms(6) by force
  with ds zs show ?thesis by blast
qed








text \<open>
  C10. The runs are runs of the sorted list of marked days, not of the calendar:
  every reported instance has \<open>start = end - count + 1\<close>; two days coded A with no
  marked day between them lie in one run, whose instance is reported; so the
  reported start can be a day without an entry, as on \<open>{3: 'A', 5: 'A'}\<close>, where the
  one instance runs from 4 to 5 with count 2 and day 4 has no entry.
\<close>

theorem absence_runs_by_list_adjacency:
  "(let days = sort (Object_keys att);
        absent = (\<lambda>day. code_at att day = ''A'');
        r = calculateConsecutiveAbsences att
    in (\<forall>i\<in>set (instances r). start i = end_day i - count i + 1)
       \<and> (\<forall>d1 d2. d1 \<in> set days \<and> d2 \<in> set days \<and> d1 < d2 \<and> absent d1 \<and> absent d2
                  \<and> (\<forall>k\<in>set days. \<not> (d1 < k \<and> k < d2))
             \<longrightarrow> (\<exists>run\<in>set (absence_runs absent days).
                    d1 \<in> set run \<and> d2 \<in> set run
                    \<and> instance_of_run run \<in> set (instances r))))
   \<and> calculateConsecutiveAbsences [(3, ''A''), (5, ''A'')] =
       \<lparr>maxConsecutive = 2, currentConsecutive = 0, totalInstances = 1,
        instances = [\<lparr>start = 4, end_day = 5, count = 2\<rparr>]\<rparr>
   \<and> map_of [(3 :: int, ''A''), (5, ''A'')] 4 = None"
proof -
  let ?days = "sort (Object_keys att)"
  let ?absent = "\<lambda>day. code_at att day = ''A''"
  let ?r = "calculateConsecutiveAbsences att"
  have inst: "instances ?r = map instance_of_run (absence_runs ?absent ?days)"
    by (simp add: calculateConsecutiveAbsences_eq)
  have 1: "\<forall>i\<in>set (instances ?r). start i = end_day i - count i + 1"
    unfolding inst by (auto simp: instance_of_run_start)
  have 2: "\<exists>run\<in>set (absence_runs ?absent ?days).
             d1 \<in> set run \<and> d2 \<in> set run \<and> instance_of_run run \<in> set (instances ?r)"
    if "d1 \<in> set ?days" "d2 \<in> set ?days" "d1 < d2" "?absent d1" "?absent d2"
      "\<forall>k\<in>set ?days. \<not> (d1 < k \<and> k < d2)" for d1 d2
  proof -
    have "sorted ?days" "distinct ?days"
      by (simp_all add: Object_keys_def)
    from adjacent_in_sorted [OF this that(1,2,3,6)]
    obtain xs ys where "?days = xs @ d1 # d2 # ys" by blast
    with runs_adjacent [of ?absent d1 d2 xs ys] that(4,5)
    obtain run where "run \<in> set (absence_runs ?absent ?days)" "d1 \<in> set run" "d2 \<in> set run"
      by auto
    then show ?thesis unfolding inst by auto
  qed
  have 3: "calculateConsecutiveAbsences [(3, ''A''), (5, ''A'')] =
       \<lparr>maxConsecutive = 2, currentConsecutive = 0, totalInstances = 1,
        instances = [\<lparr>start = 4, end_day = 5, count = 2\<rparr>]\<rparr>"
    by code_simp
  from 1 2 3 show ?thesis
    unfolding Let_def by simp
qed

theorem absence_runs_by_list_adjacency_witness:
  "instances (calculateConsecutiveAbsences [(10, ''A''), (20, ''A''), (2, ''P'')]) =
     [\<lparr>start = 19, end_day = 20, count = 2\<rparr>]
   \<and> instance_of_run [10, 20] \<in> set (instances (calculateConsecutiveAbsences [(10, ''A''), (20, ''A''), (2, ''P'')]))"
proof -
  let ?att = "[(10, ''A''), (20, ''A''), (2, ''P'')]"
  have days: "sort (Object_keys ?att) = [2, 10, 20]"
    by (simp add: Object_keys_def)
  have a: "code_at ?att 10 = ''A''" "code_at ?att 20 = ''A''"
    by (simp_all add: code_at_def toUpperCase_def upper_char_def)
  have runs: "absence_runs (\<lambda>day. code_at ?att day = ''A'') [2, 10, 20] = [[10, 20]]"
    by (simp add: code_at_def toUpperCase_def upper_char_def)
  from absence_runs_by_list_adjacency [of ?att]
  have imp: "\<forall>d1 d2. d1 \<in> set [2, 10, 20] \<and> d2 \<in> set [2, 10, 20] \<and> d1 < d2
            \<and> code_at ?att d1 = ''A'' \<and> code_at ?att d2 = ''A''
            \<and> (\<forall>k\<in>set [2, 10, 20]. \<not> (d1 < k \<and> k < d2))
          \<longrightarrow> (\<exists>run\<in>set [[10, 20]]. d1 \<in> set run \<and> d2 \<in> set run
                 \<and> instance_of_run run \<in> set (instances (calculateConsecutiveAbsences ?att)))"
    unfolding Let_def days runs by blast
  from imp [rule_format, of 10 20] a
  have m: "instance_of_run [10, 20] \<in> set (instances (calculateConsecutiveAbsences ?att))"
    by simp
  have "instances (calculateConsecutiveAbsences ?att) = [\<lparr>start = 19, end_day = 20, count = 2\<rparr>]"
    by code_simp
  with m show ?thesis by simp
qed

end
